theory Spec2Isabelle
  imports Complex_Main
begin

section \<open>Runtime values\<close>

text \<open>
  The TypeScript annotations are erased at run time and \<^verbatim>\<open>updateLastStatus\<close>,
  \<^verbatim>\<open>getPreviousStatus\<close> and the rate limiter test the dynamic type of what they are
  given, so the fields of a check result hold JavaScript values. Numbers are exact reals
  (a finite number; \<^verbatim>\<open>NaN\<close> and the infinities are no values of the model), objects
  and arrays are not field values of the model.
\<close>

datatype jsval = JUndefined | JNull | JBool bool | JNum real | JStr string

text \<open>\<^verbatim>\<open>!v\<close> is false exactly on the truthy values.\<close>

fun truthy :: "jsval \<Rightarrow> bool" where
  "truthy JUndefined = False"
| "truthy JNull = False"
| "truthy (JBool b) = b"
| "truthy (JNum x) = (x \<noteq> 0)"
| "truthy (JStr s) = (s \<noteq> [])"

text \<open>\<^verbatim>\<open>typeof v === "string"\<close> and \<^verbatim>\<open>typeof v === "number"\<close>.\<close>

fun is_string :: "jsval \<Rightarrow> bool" where
  "is_string (JStr s) = True"
| "is_string v = False"

fun is_number :: "jsval \<Rightarrow> bool" where
  "is_number (JNum x) = True"
| "is_number v = False"

text \<open>
  The string and the number a value holds. They are applied only behind the tests
  \<open>is_string\<close> and \<open>is_number\<close>; the other equations make them total.
\<close>

fun the_string :: "jsval \<Rightarrow> string" where
  "the_string (JStr s) = s"
| "the_string v = []"

fun the_number :: "jsval \<Rightarrow> real" where
  "the_number (JNum x) = x"
| "the_number v = 0"

text \<open>
  \<^verbatim>\<open>xs.slice(start)\<close>: a negative start counts from the end, and both ends are clamped
  to the array.
\<close>

definition js_slice :: "int \<Rightarrow> 'a list \<Rightarrow> 'a list" where
  "js_slice start xs =
     (let len = int (length xs);
          k = (if start < 0 then max (len + start) 0 else min start len)
      in drop (nat k) xs)"

section \<open>lib/types.ts\<close>

text \<open>
  \<^verbatim>\<open>StatusResult\<close>, without the optional fields (region, retryCount, certificateExpiry,
  dnsResolutionTime) that no function of the core reads.
\<close>

record StatusResult =
  url :: jsval
  status :: jsval
  code :: jsval
  responseTime :: jsval
  checkedAt :: jsval
  error :: jsval

text \<open>
  \<^verbatim>\<open>minResponseTime\<close> starts as \<^verbatim>\<open>Infinity\<close>; every other number of the metrics is
  finite. The optional \<^verbatim>\<open>lastUpTime\<close> and \<^verbatim>\<open>lastDownTime\<close> are \<open>JUndefined\<close> while
  absent. The counters start at 0 and only grow, so they are naturals.
\<close>

datatype xnum = Infinity | Finite real

fun Math_min :: "xnum \<Rightarrow> real \<Rightarrow> xnum" where
  "Math_min Infinity y = Finite y"
| "Math_min (Finite x) y = Finite (min x y)"

record SiteMetrics =
  m_url :: jsval
  averageResponseTime :: real
  uptimePercentage :: real
  totalChecks :: nat
  successfulChecks :: nat
  lastDownTime :: jsval
  lastUpTime :: jsval
  consecutiveFailures :: nat
  maxResponseTime :: real
  minResponseTime :: xnum

record TokenBucket =
  tokens :: real
  lastRefill :: int

section \<open>lib/stream.ts\<close>

text \<open>
  The three JSON files: the status store, the metrics store and the history. A file
  that does not exist reads as the empty store. Reads and writes succeed (the source
  logs a failed one and carries on with the empty store).
\<close>

record stores =
  statusStore :: "string \<rightharpoonup> StatusResult"
  metricsStore :: "string \<rightharpoonup> SiteMetrics"
  historyStore :: "StatusResult list"

definition emptyStores :: stores where
  "emptyStores = \<lparr>statusStore = Map.empty, metricsStore = Map.empty, historyStore = []\<rparr>"

datatype error = Error string

text \<open>\<^verbatim>\<open>addToHistory\<close>: push, then keep the last 1000 entries.\<close>

definition addToHistory :: "StatusResult \<Rightarrow> stores \<Rightarrow> stores" where
  "addToHistory result st =
     (let history = historyStore st @ [result];
          history' = (if length history > 1000 then js_slice (- 1000) history else history)
      in st\<lparr>historyStore := history'\<rparr>)"


text \<open>The object \<^verbatim>\<open>updateSiteMetrics\<close> starts from when the site has no metrics yet.\<close>

definition initialMetrics :: "jsval \<Rightarrow> SiteMetrics" where
  "initialMetrics u =
     \<lparr>m_url = u, averageResponseTime = 0, uptimePercentage = 100, totalChecks = 0,
      successfulChecks = 0, lastDownTime = JUndefined, lastUpTime = JUndefined,
      consecutiveFailures = 0, maxResponseTime = 0, minResponseTime = Infinity\<rparr>"

text \<open>
  \<^verbatim>\<open>updateSiteMetrics\<close>. It is called behind the checks of \<^verbatim>\<open>updateLastStatus\<close>, so the
  url is a string and the response time a number.
\<close>

definition updateSiteMetrics :: "StatusResult \<Rightarrow> StatusResult option \<Rightarrow> stores \<Rightarrow> stores" where
  "updateSiteMetrics result previousResult st =
     (let metrics = metricsStore st;
          key = the_string (url result);
          existing = (case metrics key of Some m \<Rightarrow> m | None \<Rightarrow> initialMetrics (url result));
          e1 = existing\<lparr>totalChecks := totalChecks existing + 1\<rparr>;
          e2 = (if status result = JStr ''UP''
                then e1\<lparr>successfulChecks := successfulChecks e1 + 1,
                        consecutiveFailures := 0,
                        lastUpTime := checkedAt result\<rparr>
                else e1\<lparr>consecutiveFailures := consecutiveFailures e1 + 1,
                        lastDownTime := checkedAt result\<rparr>);
          rt = the_number (responseTime result);
          e3 = e2\<lparr>averageResponseTime :=
                    (averageResponseTime e2 * real (totalChecks e2 - 1) + rt)
                      / real (totalChecks e2)\<rparr>;
          e4 = e3\<lparr>maxResponseTime := max (maxResponseTime e3) rt\<rparr>;
          e5 = e4\<lparr>minResponseTime := Math_min (minResponseTime e4) rt\<rparr>;
          e6 = e5\<lparr>uptimePercentage :=
                    (real (successfulChecks e5) / real (totalChecks e5)) * 100\<rparr>
      in st\<lparr>metricsStore := metrics(key \<mapsto> e6)\<rparr>)"

text \<open>
  \<^verbatim>\<open>updateLastStatus\<close>. The result pairs what was thrown (\<open>None\<close> on a normal return)
  with the stores as the call leaves them. The first check of the source (the argument
  is an object and no array) holds of every \<open>StatusResult\<close>.
\<close>

definition updateLastStatus :: "StatusResult \<Rightarrow> stores \<Rightarrow> error option \<times> stores" where
  "updateLastStatus result st =
     (if \<not> truthy (url result) \<or> \<not> is_string (url result)
      then (Some (Error ''Result must have a valid URL string''), st)
      else if \<not> truthy (status result) \<or> status result \<notin> set [JStr ''UP'', JStr ''DOWN'']
      then (Some (Error ''Result must have a valid status (UP or DOWN)''), st)
      else if \<not> is_number (responseTime result) \<or> the_number (responseTime result) < 0
      then (Some (Error ''Result must have a valid responseTime (non-negative number)''), st)
      else if \<not> truthy (checkedAt result) \<or> \<not> is_string (checkedAt result)
      then (Some (Error ''Result must have a valid checkedAt timestamp''), st)
      else
        (let key = the_string (url result);
             previousResult = statusStore st key;
             st1 = st\<lparr>statusStore := (statusStore st)(key \<mapsto> result)\<rparr>;
             st2 = updateSiteMetrics result previousResult st1;
             st3 = addToHistory result st2
         in (None, st3)))"


definition getPreviousStatus :: "jsval \<Rightarrow> stores \<Rightarrow> error + StatusResult option" where
  "getPreviousStatus u st =
     (if \<not> truthy u \<or> \<not> is_string u then Inl (Error ''URL must be a valid string'')
      else Inr (statusStore st (the_string u)))"



definition clearAllStatuses :: "stores \<Rightarrow> stores" where
  "clearAllStatuses st = emptyStores"

section \<open>lib/rate-limiter.ts\<close>

text \<open>
  \<^verbatim>\<open>Date.now()\<close> is an input of the model: a clock \<open>clk\<close> lists the readings the
  process gets, in the order it asks for them, and the counter beside the rate limiter
  is the number of readings taken so far. A function that reads the clock takes the
  reading at the counter and advances the counter.
\<close>

type_synonym clock = "nat \<Rightarrow> int"

text \<open>The closure \<^verbatim>\<open>createRateLimiter\<close> returns: its configuration and its buckets.\<close>

record RateLimiter =
  burst :: real
  windowSec :: real
  refillRate :: real
  buckets :: "string \<rightharpoonup> TokenBucket"

definition createRateLimiter :: "real \<Rightarrow> real \<Rightarrow> error + RateLimiter" where
  "createRateLimiter b w =
     (if b = 0 \<or> b \<le> 0 then Inl (Error ''burst must be a positive number'')
      else if w = 0 \<or> w \<le> 0 then Inl (Error ''windowSec must be a positive number'')
      else Inr \<lparr>burst = b, windowSec = w, refillRate = b / (w * 1000), buckets = Map.empty\<rparr>)"

text \<open>\<^verbatim>\<open>getBucket\<close> reads the clock only when it creates the bucket.\<close>

definition getBucket :: "clock \<Rightarrow> string \<Rightarrow> RateLimiter \<times> nat \<Rightarrow> TokenBucket \<times> RateLimiter \<times> nat" where
  "getBucket clk siteUrl s =
     (case buckets (fst s) siteUrl of
        None \<Rightarrow>
          (let bucket = \<lparr>tokens = burst (fst s), lastRefill = clk (snd s)\<rparr>
           in (bucket, (fst s)\<lparr>buckets := (buckets (fst s))(siteUrl \<mapsto> bucket)\<rparr>, Suc (snd s)))
      | Some bucket \<Rightarrow> (bucket, fst s, snd s))"

text \<open>
  \<^verbatim>\<open>refillBucket\<close>, on the reading \<open>now\<close> it takes. The source updates the bucket
  object in place; here the caller stores the bucket it gets back under the key.
\<close>

definition refillBucket :: "RateLimiter \<Rightarrow> int \<Rightarrow> TokenBucket \<Rightarrow> TokenBucket" where
  "refillBucket rl now bucket =
     (let timePassed = now - lastRefill bucket
      in if timePassed > 0
         then (let tokensToAdd = real_of_int timePassed * refillRate rl
               in bucket\<lparr>tokens := min (burst rl) (tokens bucket + tokensToAdd),
                         lastRefill := now\<rparr>)
         else bucket)"

definition isAllowed :: "clock \<Rightarrow> jsval \<Rightarrow> RateLimiter \<times> nat \<Rightarrow> error + (bool \<times> RateLimiter \<times> nat)" where
  "isAllowed clk siteUrl s =
     (if \<not> truthy siteUrl \<or> \<not> is_string siteUrl
      then Inl (Error ''siteUrl must be a valid string'')
      else (case getBucket clk (the_string siteUrl) s of
              (bucket0, rl, n) \<Rightarrow>
                (let bucket = refillBucket rl (clk n) bucket0
                 in Inr (tokens bucket \<ge> 1,
                         rl\<lparr>buckets := (buckets rl)(the_string siteUrl \<mapsto> bucket)\<rparr>, Suc n))))"

definition consume :: "clock \<Rightarrow> jsval \<Rightarrow> RateLimiter \<times> nat \<Rightarrow> error + (bool \<times> RateLimiter \<times> nat)" where
  "consume clk siteUrl s =
     (if \<not> truthy siteUrl \<or> \<not> is_string siteUrl
      then Inl (Error ''siteUrl must be a valid string'')
      else (case getBucket clk (the_string siteUrl) s of
              (bucket0, rl, n) \<Rightarrow>
                (let bucket = refillBucket rl (clk n) bucket0
                 in if tokens bucket \<ge> 1
                    then Inr (True,
                              rl\<lparr>buckets := (buckets rl)(the_string siteUrl \<mapsto>
                                                bucket\<lparr>tokens := tokens bucket - 1\<rparr>)\<rparr>,
                              Suc n)
                    else Inr (False,
                              rl\<lparr>buckets := (buckets rl)(the_string siteUrl \<mapsto> bucket)\<rparr>,
                              Suc n))))"

definition getTokenCount :: "clock \<Rightarrow> jsval \<Rightarrow> RateLimiter \<times> nat \<Rightarrow> error + (int \<times> RateLimiter \<times> nat)" where
  "getTokenCount clk siteUrl s =
     (if \<not> truthy siteUrl \<or> \<not> is_string siteUrl
      then Inl (Error ''siteUrl must be a valid string'')
      else (case getBucket clk (the_string siteUrl) s of
              (bucket0, rl, n) \<Rightarrow>
                (let bucket = refillBucket rl (clk n) bucket0
                 in Inr (\<lfloor>tokens bucket\<rfloor>,
                         rl\<lparr>buckets := (buckets rl)(the_string siteUrl \<mapsto> bucket)\<rparr>, Suc n))))"

definition reset :: "RateLimiter \<Rightarrow> RateLimiter" where
  "reset rl = rl\<lparr>buckets := Map.empty\<rparr>"

definition getTimeUntilNextToken :: "clock \<Rightarrow> jsval \<Rightarrow> RateLimiter \<times> nat \<Rightarrow> error + (int \<times> RateLimiter \<times> nat)" where
  "getTimeUntilNextToken clk siteUrl s =
     (if \<not> truthy siteUrl \<or> \<not> is_string siteUrl
      then Inl (Error ''siteUrl must be a valid string'')
      else (case getBucket clk (the_string siteUrl) s of
              (bucket0, rl, n) \<Rightarrow>
                (let bucket = refillBucket rl (clk n) bucket0;
                     rl' = rl\<lparr>buckets := (buckets rl)(the_string siteUrl \<mapsto> bucket)\<rparr>
                 in if tokens bucket \<ge> 1 then Inr (0, rl', Suc n)
                    else (let tokensNeeded = 1 - tokens bucket
                          in Inr (\<lceil>tokensNeeded / refillRate rl\<rceil>, rl', Suc n)))))"

section \<open>The alerter step\<close>

text \<open>
  What the handler puts on the terminal: the initial-check line, the routine status
  line, the status-change alert (with the previous status) and the rate-limited line
  (with the previous status and the milliseconds until the next token).
\<close>

datatype notification =
    InitialCheck StatusResult
  | StatusUpdate StatusResult
  | StatusChange StatusResult jsval
  | RateLimited StatusResult jsval int

text \<open>What one call of the handler did: what it showed and what it threw.\<close>

record outcome =
  shown :: "notification option"
  thrown :: "error option"

text \<open>
  The state the handler works on: the files of lib/stream.ts, the module's rate limiter
  and the number of clock readings taken.
\<close>

record world =
  files :: stores
  rateLimiter :: RateLimiter
  tick :: nat

text \<open>
  \<^verbatim>\<open>handler\<close>. An error of \<^verbatim>\<open>getPreviousStatus\<close> is caught and logged, and the handler
  returns; an error of \<^verbatim>\<open>updateLastStatus\<close> or of the rate limiter leaves the handler.
  The snapshot read for the debug log changes nothing and is left out.
\<close>

definition handler :: "clock \<Rightarrow> StatusResult \<Rightarrow> world \<Rightarrow> outcome \<times> world" where
  "handler clk input w =
     (case getPreviousStatus (url input) (files w) of
        Inl getPrevError \<Rightarrow> (\<lparr>shown = None, thrown = None\<rparr>, w)
      | Inr None \<Rightarrow>
          (case updateLastStatus input (files w) of
             (Some e, f) \<Rightarrow> (\<lparr>shown = None, thrown = Some e\<rparr>, w\<lparr>files := f\<rparr>)
           | (None, f) \<Rightarrow>
               (\<lparr>shown = Some (InitialCheck input), thrown = None\<rparr>, w\<lparr>files := f\<rparr>))
      | Inr (Some previousResult) \<Rightarrow>
          (let previousStatus = status previousResult
           in if status input = previousStatus
              then (case updateLastStatus input (files w) of
                      (Some e, f) \<Rightarrow> (\<lparr>shown = None, thrown = Some e\<rparr>, w\<lparr>files := f\<rparr>)
                    | (None, f) \<Rightarrow>
                        (\<lparr>shown = Some (StatusUpdate input), thrown = None\<rparr>, w\<lparr>files := f\<rparr>))
              else (case consume clk (url input) (rateLimiter w, tick w) of
                      Inl e \<Rightarrow> (\<lparr>shown = None, thrown = Some e\<rparr>, w)
                    | Inr (False, s1) \<Rightarrow>
                        (case getTimeUntilNextToken clk (url input) s1 of
                           Inl e \<Rightarrow>
                             (\<lparr>shown = None, thrown = Some e\<rparr>,
                              w\<lparr>rateLimiter := fst s1, tick := snd s1\<rparr>)
                         | Inr (timeUntilNext, s2) \<Rightarrow>
                             (case getTokenCount clk (url input) s2 of
                                Inl e \<Rightarrow>
                                  (\<lparr>shown = None, thrown = Some e\<rparr>,
                                   w\<lparr>rateLimiter := fst s2, tick := snd s2\<rparr>)
                              | Inr (tokensRemaining, s3) \<Rightarrow>
                                  (\<lparr>shown = Some (RateLimited input previousStatus timeUntilNext),
                                    thrown = None\<rparr>,
                                   w\<lparr>rateLimiter := fst s3, tick := snd s3\<rparr>)))
                    | Inr (True, s1) \<Rightarrow>
                        (case getTokenCount clk (url input) s1 of
                           Inl e \<Rightarrow>
                             (\<lparr>shown = None, thrown = Some e\<rparr>,
                              w\<lparr>rateLimiter := fst s1, tick := snd s1\<rparr>)
                         | Inr (tokensRemaining, s2) \<Rightarrow>
                             (case updateLastStatus input (files w) of
                                (Some e, f) \<Rightarrow>
                                  (\<lparr>shown = Some (StatusChange input previousStatus),
                                    thrown = Some e\<rparr>,
                                   w\<lparr>files := f, rateLimiter := fst s2, tick := snd s2\<rparr>)
                              | (None, f) \<Rightarrow>
                                  (\<lparr>shown = Some (StatusChange input previousStatus),
                                    thrown = None\<rparr>,
                                   w\<lparr>files := f, rateLimiter := fst s2, tick := snd s2\<rparr>))))))"

section \<open>Sequences of calls\<close>



section \<open>Predicates of the statements\<close>

text \<open>
  The check results \<^verbatim>\<open>updateLastStatus\<close> accepts: every one of its
  four checks passes.
\<close>

definition wellFormed :: "StatusResult \<Rightarrow> bool" where
  "wellFormed r \<longleftrightarrow>
     truthy (url r) \<and> is_string (url r) \<and>
     (status r = JStr ''UP'' \<or> status r = JStr ''DOWN'') \<and>
     is_number (responseTime r) \<and> 0 \<le> the_number (responseTime r) \<and>
     truthy (checkedAt r) \<and> is_string (checkedAt r)"



text \<open>
  What \<^verbatim>\<open>createRateLimiter\<close> establishes about the configuration of
  the limiter it returns.
\<close>

definition configured :: "RateLimiter \<Rightarrow> bool" where
  "configured rl \<longleftrightarrow>
     0 < burst rl \<and> 0 < windowSec rl \<and> refillRate rl = burst rl / (windowSec rl * 1000)"

text \<open>
  Every bucket holds between 0 and \<open>burst\<close> tokens.
\<close>

definition bucketsInRange :: "RateLimiter \<Rightarrow> bool" where
  "bucketsInRange rl \<longleftrightarrow>
     (\<forall>k b. buckets rl k = Some b \<longrightarrow> 0 \<le> tokens b \<and> tokens b \<le> burst rl)"

text \<open>
  The bucket of a key as \<^verbatim>\<open>getBucket\<close> and
  \<^verbatim>\<open>refillBucket\<close> leave it: the first two steps of every operation
  of the limiter.
\<close>

definition refilled :: "clock \<Rightarrow> string \<Rightarrow> RateLimiter \<times> nat \<Rightarrow> TokenBucket" where
  "refilled clk k s =
     (case getBucket clk k s of (bucket0, rl, n) \<Rightarrow> refillBucket rl (clk n) bucket0)"

text \<open>
  The limiter and the counter after these two steps, the bucket stored under its key.
\<close>

definition afterRefill :: "clock \<Rightarrow> string \<Rightarrow> RateLimiter \<times> nat \<Rightarrow> RateLimiter \<times> nat" where
  "afterRefill clk k s =
     (case getBucket clk k s of (bucket0, rl, n) \<Rightarrow>
        (rl\<lparr>buckets := (buckets rl)(k \<mapsto> refillBucket rl (clk n) bucket0)\<rparr>, Suc n))"





text \<open>
  Concrete check results, limiters, clocks and states for the instances below.
\<close>

definition sampleResult :: "string \<Rightarrow> string \<Rightarrow> real \<Rightarrow> StatusResult" where
  "sampleResult u s rt =
     \<lparr>url = JStr u, status = JStr s, code = JNum 200, responseTime = JNum rt,
      checkedAt = JStr ''2025-01-01T00:00:00.000Z'', error = JNull\<rparr>"

definition sampleLimiter :: "real \<Rightarrow> real \<Rightarrow> RateLimiter" where
  "sampleLimiter b w = \<lparr>burst = b, windowSec = w, refillRate = b / (w * 1000), buckets = Map.empty\<rparr>"





definition limitedWorld :: world where
  "limitedWorld =
     \<lparr>files = \<lparr>statusStore = [''https://a.example'' \<mapsto> sampleResult ''https://a.example'' ''DOWN'' 0],
               metricsStore = Map.empty, historyStore = []\<rparr>,
      rateLimiter = (sampleLimiter 1 300)\<lparr>buckets :=
        [''https://a.example'' \<mapsto> \<lparr>tokens = 0, lastRefill = 0\<rparr>]\<rparr>,
      tick = 0\<rparr>"


section \<open>Lemmas\<close>



lemma updateLastStatus_rejects:
  "\<not> wellFormed r \<Longrightarrow> \<exists>e. updateLastStatus r st = (Some e, st)"
  by (auto simp: wellFormed_def updateLastStatus_def Let_def)

lemma metricsStore_addToHistory [simp]: "metricsStore (addToHistory r st) = metricsStore st"
  by (simp add: addToHistory_def Let_def)

lemma statusStore_addToHistory [simp]: "statusStore (addToHistory r st) = statusStore st"
  by (simp add: addToHistory_def Let_def)

lemma statusStore_updateSiteMetrics [simp]: "statusStore (updateSiteMetrics r p st) = statusStore st"
  by (simp add: updateSiteMetrics_def Let_def)

lemma historyStore_updateSiteMetrics [simp]: "historyStore (updateSiteMetrics r p st) = historyStore st"
  by (simp add: updateSiteMetrics_def Let_def)







lemma isAllowed_eq:
  "k \<noteq> [] \<Longrightarrow> isAllowed clk (JStr k) s = Inr (tokens (refilled clk k s) \<ge> 1, afterRefill clk k s)"
  by (simp add: isAllowed_def refilled_def afterRefill_def Let_def split: prod.splits)

lemma consume_eq:
  "k \<noteq> [] \<Longrightarrow> consume clk (JStr k) s =
     (if tokens (refilled clk k s) \<ge> 1
      then Inr (True, (fst (afterRefill clk k s))\<lparr>buckets :=
                (buckets (fst (afterRefill clk k s)))(k \<mapsto> (refilled clk k s)\<lparr>tokens := tokens (refilled clk k s) - 1\<rparr>)\<rparr>,
                snd (afterRefill clk k s))
      else Inr (False, afterRefill clk k s))"
  by (simp add: consume_def refilled_def afterRefill_def Let_def split: prod.splits)

lemma getTimeUntilNextToken_eq:
  "k \<noteq> [] \<Longrightarrow> getTimeUntilNextToken clk (JStr k) s =
     Inr (if tokens (refilled clk k s) \<ge> 1 then 0
          else \<lceil>(1 - tokens (refilled clk k s)) / refillRate (fst s)\<rceil>, afterRefill clk k s)"
  by (auto simp add: getTimeUntilNextToken_def refilled_def afterRefill_def getBucket_def Let_def split: prod.splits option.splits)

lemma getTokenCount_eq:
  "k \<noteq> [] \<Longrightarrow> getTokenCount clk (JStr k) s =
     Inr (\<lfloor>tokens (refilled clk k s)\<rfloor>, afterRefill clk k s)"
  by (simp add: getTokenCount_def refilled_def afterRefill_def Let_def split: prod.splits)

lemma invalid_key:
  assumes "\<not> truthy k \<or> \<not> is_string k"
  shows "isAllowed clk k s = Inl (Error ''siteUrl must be a valid string'')"
    "consume clk k s = Inl (Error ''siteUrl must be a valid string'')"
    "getTimeUntilNextToken clk k s = Inl (Error ''siteUrl must be a valid string'')"
    "getTokenCount clk k s = Inl (Error ''siteUrl must be a valid string'')"
  using assms by (auto simp: isAllowed_def consume_def getTimeUntilNextToken_def getTokenCount_def)

lemma valid_key: "truthy k \<Longrightarrow> is_string k \<Longrightarrow> \<exists>s. k = JStr s \<and> s \<noteq> []"
  by (cases k) auto

lemma afterRefill_fields [simp]:
  "burst (fst (afterRefill clk k s)) = burst (fst s)"
  "windowSec (fst (afterRefill clk k s)) = windowSec (fst s)"
  "refillRate (fst (afterRefill clk k s)) = refillRate (fst s)"
  by (auto simp: afterRefill_def getBucket_def Let_def split_def split: option.splits)

lemma afterRefill_buckets:
  "buckets (fst (afterRefill clk k s)) = (buckets (fst s))(k \<mapsto> refilled clk k s)"
  by (auto simp: afterRefill_def refilled_def getBucket_def Let_def split_def split: option.splits)

lemma refillBucket_range:
  assumes "0 < burst rl" "0 \<le> refillRate rl" "0 \<le> tokens b" "tokens b \<le> burst rl"
  shows "0 \<le> tokens (refillBucket rl now b) \<and> tokens (refillBucket rl now b) \<le> burst rl"
  using assms by (auto simp: refillBucket_def Let_def min_def)

lemma refilled_range:
  assumes "configured (fst s)" "bucketsInRange (fst s)"
  shows "0 \<le> tokens (refilled clk k s) \<and> tokens (refilled clk k s) \<le> burst (fst s)"
proof -
  have r: "0 \<le> refillRate (fst s)" and b: "0 < burst (fst s)"
    using assms(1) by (auto simp: configured_def)
  show ?thesis
  proof (cases "buckets (fst s) k")
    case None
    then show ?thesis
      using refillBucket_range [of "(fst s)\<lparr>buckets := (buckets (fst s))(k \<mapsto> \<lparr>tokens = burst (fst s), lastRefill = clk (snd s)\<rparr>)\<rparr>"
          "\<lparr>tokens = burst (fst s), lastRefill = clk (snd s)\<rparr>"] r b
      by (simp add: refilled_def getBucket_def Let_def split_def)
  next
    case (Some b0)
    then have "0 \<le> tokens b0 \<and> tokens b0 \<le> burst (fst s)"
      using assms(2) by (auto simp: bucketsInRange_def)
    then show ?thesis
      using refillBucket_range [of "fst s" b0] r b Some
      by (simp add: refilled_def getBucket_def Let_def split_def)
  qed
qed

lemma ceiling_pos_quotient:
  fixes a r :: real
  assumes "0 < a" "0 < r"
  shows "\<lceil>a / r\<rceil> \<noteq> 0"
proof -
  have "0 < a / r" using assms by simp
  then have "0 < \<lceil>a / r\<rceil>" by (simp only: zero_less_ceiling)
  then show ?thesis by linarith
qed

lemma inRange_afterRefill:
  assumes "configured (fst s)" "bucketsInRange (fst s)"
  shows "bucketsInRange (fst (afterRefill clk k s))"
  using refilled_range [OF assms, of clk k] assms(2)
  by (auto simp: bucketsInRange_def afterRefill_buckets)

lemma inRange_afterConsume:
  assumes "configured (fst s)" "bucketsInRange (fst s)" "1 \<le> tokens (refilled clk k s)"
  shows "bucketsInRange ((fst (afterRefill clk k s))\<lparr>buckets :=
                (buckets (fst (afterRefill clk k s)))(k \<mapsto> (refilled clk k s)\<lparr>tokens := tokens (refilled clk k s) - 1\<rparr>)\<rparr>)"
  using refilled_range [OF assms(1,2), of clk k] assms(2,3)
  by (auto simp: bucketsInRange_def afterRefill_buckets)



lemma getPreviousStatus_Inr:
  assumes "getPreviousStatus v st = Inr x"
  shows "\<exists>u. v = JStr u \<and> u \<noteq> [] \<and> x = statusStore st u"
  using assms by (cases v) (auto simp: getPreviousStatus_def split: if_splits)



lemma handler_denied:
  assumes "getPreviousStatus (url r) (files w) = Inr (Some p)" "status r \<noteq> status p"
    and "consume clk (url r) (rateLimiter w, tick w) = Inr (False, s1)"
  shows "\<exists>t s2 c s3.
           getTimeUntilNextToken clk (url r) s1 = Inr (t, s2) \<and>
           getTokenCount clk (url r) s2 = Inr (c, s3) \<and>
           handler clk r w =
             (\<lparr>shown = Some (RateLimited r (status p) t), thrown = None\<rparr>,
              w\<lparr>rateLimiter := fst s3, tick := snd s3\<rparr>)"
proof -
  from getPreviousStatus_Inr [OF assms(1)] obtain u where u: "url r = JStr u" "u \<noteq> []" by blast
  show ?thesis
    using assms
    by (simp add: handler_def u getTimeUntilNextToken_eq [OF u(2)] getTokenCount_eq [OF u(2)])
qed































section \<open>The claims\<close>

subsection \<open>Claim C1\<close>

text \<open>
  Claim C1. The site has a stored record \<open>p\<close>, the status of the incoming result \<open>r\<close>
  differs from the stored one, and \<^verbatim>\<open>consume\<close> is denied. Then the handler shows the
  rate-limited line, which carries what \<^verbatim>\<open>getTimeUntilNextToken\<close> returns right after the
  denied \<^verbatim>\<open>consume\<close>, it throws nothing, and the three stores (status records, history,
  metrics) are as they were: the stored record of the site is still \<open>p\<close>.
\<close>

theorem suppressed_transition_keeps_stores:
  assumes "getPreviousStatus (url r) (files w) = Inr (Some p)" and "status r \<noteq> status p"
    and "consume clk (url r) (rateLimiter w, tick w) = Inr (False, s1)"
  shows "\<exists>t s2 c s3.
           getTimeUntilNextToken clk (url r) s1 = Inr (t, s2) \<and>
           getTokenCount clk (url r) s2 = Inr (c, s3) \<and>
           fst (handler clk r w) = \<lparr>shown = Some (RateLimited r (status p) t), thrown = None\<rparr> \<and>
           files (snd (handler clk r w)) = files w \<and>
           getPreviousStatus (url r) (files (snd (handler clk r w))) = Inr (Some p)"
proof -
  from handler_denied [OF assms] obtain t s2 c s3 where
    h: "getTimeUntilNextToken clk (url r) s1 = Inr (t, s2)"
       "getTokenCount clk (url r) s2 = Inr (c, s3)"
       "handler clk r w =
             (\<lparr>shown = Some (RateLimited r (status p) t), thrown = None\<rparr>,
              w\<lparr>rateLimiter := fst s3, tick := snd s3\<rparr>)"
    by blast
  show ?thesis using h assms(1) by simp
qed

text \<open>
  An instance: the site is stored as DOWN, its bucket is empty, and an UP result comes in.
\<close>

theorem suppressed_transition_witness:
  "(\<exists>t. fst (handler (\<lambda>i. 0) (sampleResult ''https://a.example'' ''UP'' 95) limitedWorld) =
         \<lparr>shown = Some (RateLimited (sampleResult ''https://a.example'' ''UP'' 95) (JStr ''DOWN'') t),
          thrown = None\<rparr>) \<and>
   files (snd (handler (\<lambda>i. 0) (sampleResult ''https://a.example'' ''UP'' 95) limitedWorld)) =
     files limitedWorld"
proof -
  let ?r = "sampleResult ''https://a.example'' ''UP'' 95"
  let ?p = "sampleResult ''https://a.example'' ''DOWN'' 0"
  have g: "getPreviousStatus (url ?r) (files limitedWorld) = Inr (Some ?p)"
    by (simp add: getPreviousStatus_def sampleResult_def limitedWorld_def)
  have d: "status ?r \<noteq> status ?p" by (simp add: sampleResult_def)
  have "\<exists>s1. consume (\<lambda>i. 0) (url ?r) (rateLimiter limitedWorld, tick limitedWorld) = Inr (False, s1)"
    by (simp add: consume_def getBucket_def refillBucket_def sampleResult_def limitedWorld_def
        sampleLimiter_def Let_def)
  then obtain s1 where
    c: "consume (\<lambda>i. 0) (url ?r) (rateLimiter limitedWorld, tick limitedWorld) = Inr (False, s1)" ..
  from suppressed_transition_keeps_stores [OF g d c] show ?thesis
    by (auto simp: sampleResult_def)
qed

subsection \<open>Claim C2\<close>




subsection \<open>Claim C3\<close>




subsection \<open>Claim C4\<close>



subsection \<open>Claim C5\<close>



subsection \<open>Claim C6\<close>



subsection \<open>Claim C7\<close>



subsection \<open>Claim C8\<close>

text \<open>
  Claim C8. A limiter with \<open>burst = 3\<close> and \<open>windowSec = 300\<close>, and a clock that stands
  still: three calls of \<^verbatim>\<open>consume\<close> for a site are granted, and
  \<^verbatim>\<open>getTimeUntilNextToken\<close> then returns 100000 milliseconds.
\<close>

theorem token_bucket_timing:
  assumes "k \<noteq> []" and "\<forall>i. clk i = t"
  shows "\<exists>rl0 s1 s2 s3 s4.
           createRateLimiter 3 300 = Inr rl0 \<and>
           consume clk (JStr k) (rl0, n) = Inr (True, s1) \<and>
           consume clk (JStr k) s1 = Inr (True, s2) \<and>
           consume clk (JStr k) s2 = Inr (True, s3) \<and>
           getTimeUntilNextToken clk (JStr k) s3 = Inr (100000, s4)"
  using assms
  by (simp add: createRateLimiter_def consume_def getTimeUntilNextToken_def getBucket_def
      refillBucket_def Let_def)

text \<open>
  An instance: the clock stands at 0.
\<close>

theorem token_bucket_timing_witness:
  "\<exists>rl0 s1 s2 s3 s4.
     createRateLimiter 3 300 = Inr rl0 \<and>
     consume (\<lambda>i. 0) (JStr ''https://a.example'') (rl0, 0) = Inr (True, s1) \<and>
     consume (\<lambda>i. 0) (JStr ''https://a.example'') s1 = Inr (True, s2) \<and>
     consume (\<lambda>i. 0) (JStr ''https://a.example'') s2 = Inr (True, s3) \<and>
     getTimeUntilNextToken (\<lambda>i. 0) (JStr ''https://a.example'') s3 = Inr (100000, s4)"
proof -
  have k: "''https://a.example'' \<noteq> []" by simp
  have c: "\<forall>i. (\<lambda>i. 0::int) i = 0" by simp
  from token_bucket_timing [OF k c, of 0] show ?thesis .
qed

subsection \<open>Claim C9\<close>

text \<open>
  Claim C9, amended. A result whose url is no string or the empty string, whose status is
  neither UP nor DOWN, whose response time is no number or a negative one, or whose
  checkedAt is no string or the empty string: \<^verbatim>\<open>updateLastStatus\<close> throws and leaves the
  three stores as they were. Whether the url is a well-formed URL and whether checkedAt
  parses as a timestamp is not checked.
\<close>

theorem malformed_result_rejected:
  assumes "(\<forall>s. url r = JStr s \<longrightarrow> s = []) \<or>
           (status r \<noteq> JStr ''UP'' \<and> status r \<noteq> JStr ''DOWN'') \<or>
           (\<forall>x. responseTime r = JNum x \<longrightarrow> x < 0) \<or>
           (\<forall>s. checkedAt r = JStr s \<longrightarrow> s = [])"
  shows "\<exists>e. updateLastStatus r st = (Some e, st)"
proof -
  have "\<not> wellFormed r"
    using assms
    by (cases "url r"; cases "responseTime r"; cases "checkedAt r") (auto simp: wellFormed_def)
  then show ?thesis by (rule updateLastStatus_rejects)
qed

text \<open>
  An instance: the status SIDEWAYS.
\<close>

theorem malformed_result_witness:
  "\<exists>e. updateLastStatus (sampleResult ''https://a.example'' ''SIDEWAYS'' 120) emptyStores =
         (Some e, emptyStores)"
proof -
  let ?r = "sampleResult ''https://a.example'' ''SIDEWAYS'' 120"
  have "(\<forall>s. url ?r = JStr s \<longrightarrow> s = []) \<or>
        (status ?r \<noteq> JStr ''UP'' \<and> status ?r \<noteq> JStr ''DOWN'') \<or>
        (\<forall>x. responseTime ?r = JNum x \<longrightarrow> x < 0) \<or>
        (\<forall>s. checkedAt ?r = JStr s \<longrightarrow> s = [])"
    by (simp add: sampleResult_def)
  from malformed_result_rejected [OF this] show ?thesis .
qed

text \<open>
  Claim C9 as stated fails: a checkedAt that no date parser accepts is a non-empty
  string, so the result is accepted and written to all three stores.
\<close>

theorem unparseable_timestamp_counterexample:
  "updateLastStatus
     \<lparr>url = JStr ''https://a.example'', status = JStr ''UP'', code = JNum 200,
      responseTime = JNum 120, checkedAt = JStr ''not a timestamp'', error = JNull\<rparr>
     emptyStores =
   (None,
    \<lparr>statusStore = [''https://a.example'' \<mapsto>
        \<lparr>url = JStr ''https://a.example'', status = JStr ''UP'', code = JNum 200,
         responseTime = JNum 120, checkedAt = JStr ''not a timestamp'', error = JNull\<rparr>],
     metricsStore = [''https://a.example'' \<mapsto>
        \<lparr>m_url = JStr ''https://a.example'', averageResponseTime = 120, uptimePercentage = 100,
         totalChecks = 1, successfulChecks = 1, lastDownTime = JUndefined,
         lastUpTime = JStr ''not a timestamp'', consecutiveFailures = 0,
         maxResponseTime = 120, minResponseTime = Finite 120\<rparr>],
     historyStore =
       [\<lparr>url = JStr ''https://a.example'', status = JStr ''UP'', code = JNum 200,
         responseTime = JNum 120, checkedAt = JStr ''not a timestamp'', error = JNull\<rparr>]\<rparr>)"
  by (simp add: updateLastStatus_def updateSiteMetrics_def addToHistory_def initialMetrics_def
      emptyStores_def Let_def)

subsection \<open>Claim C10\<close>

text \<open>
  Claim C10. On the same limiter state and the same clock readings, for every key:
  \<^verbatim>\<open>consume\<close> is granted exactly when \<^verbatim>\<open>isAllowed\<close> returns true;
  \<^verbatim>\<open>getTimeUntilNextToken\<close> returns 0 exactly when \<^verbatim>\<open>isAllowed\<close> returns true; a
  denied \<^verbatim>\<open>consume\<close> leaves the state \<^verbatim>\<open>isAllowed\<close> leaves (the refill and nothing
  else); and when every bucket holds between 0 and \<open>burst\<close> tokens before one of the four
  operations, every bucket does after it.
\<close>

theorem limiter_agreement:
  assumes "configured rl"
  shows "((\<exists>s'. consume clk k (rl, n) = Inr (True, s')) \<longleftrightarrow>
            (\<exists>s'. isAllowed clk k (rl, n) = Inr (True, s'))) \<and>
         ((\<exists>s'. getTimeUntilNextToken clk k (rl, n) = Inr (0, s')) \<longleftrightarrow>
            (\<exists>s'. isAllowed clk k (rl, n) = Inr (True, s'))) \<and>
         (\<forall>s'. consume clk k (rl, n) = Inr (False, s') \<longrightarrow>
            isAllowed clk k (rl, n) = Inr (False, s')) \<and>
         (bucketsInRange rl \<longrightarrow>
            (\<forall>a s'. consume clk k (rl, n) = Inr (a, s') \<longrightarrow> bucketsInRange (fst s')) \<and>
            (\<forall>a s'. isAllowed clk k (rl, n) = Inr (a, s') \<longrightarrow> bucketsInRange (fst s')) \<and>
            (\<forall>a s'. getTimeUntilNextToken clk k (rl, n) = Inr (a, s') \<longrightarrow>
               bucketsInRange (fst s')) \<and>
            (\<forall>a s'. getTokenCount clk k (rl, n) = Inr (a, s') \<longrightarrow> bucketsInRange (fst s')))"
proof (cases "truthy k \<and> is_string k")
  case False
  then have "\<not> truthy k \<or> \<not> is_string k" by simp
  from invalid_key [OF this] show ?thesis by simp
next
  case True
  then obtain u where k: "k = JStr u" and u: "u \<noteq> []" using valid_key by blast
  let ?s = "(rl, n)"
  have c: "configured (fst ?s)" using assms by simp
  have rate: "0 < refillRate rl" using assms by (simp add: configured_def)
  have t: "tokens (refilled clk u ?s) < 1 \<Longrightarrow>
           \<lceil>(1 - tokens (refilled clk u ?s)) / refillRate rl\<rceil> \<noteq> 0"
    using ceiling_pos_quotient [of "1 - tokens (refilled clk u ?s)" "refillRate rl"] rate by simp
  have 1: "(\<exists>s'. consume clk k ?s = Inr (True, s')) \<longleftrightarrow> (\<exists>s'. isAllowed clk k ?s = Inr (True, s'))"
    by (simp add: k consume_eq [OF u] isAllowed_eq [OF u])
  have 2: "(\<exists>s'. getTimeUntilNextToken clk k ?s = Inr (0, s')) \<longleftrightarrow>
           (\<exists>s'. isAllowed clk k ?s = Inr (True, s'))"
    using t by (auto simp add: k getTimeUntilNextToken_eq [OF u] isAllowed_eq [OF u])
  have 3: "\<forall>s'. consume clk k ?s = Inr (False, s') \<longrightarrow> isAllowed clk k ?s = Inr (False, s')"
    by (auto simp add: k consume_eq [OF u] isAllowed_eq [OF u] split: if_splits)
  have 4: "bucketsInRange rl \<longrightarrow>
            (\<forall>a s'. consume clk k ?s = Inr (a, s') \<longrightarrow> bucketsInRange (fst s')) \<and>
            (\<forall>a s'. isAllowed clk k ?s = Inr (a, s') \<longrightarrow> bucketsInRange (fst s')) \<and>
            (\<forall>a s'. getTimeUntilNextToken clk k ?s = Inr (a, s') \<longrightarrow> bucketsInRange (fst s')) \<and>
            (\<forall>a s'. getTokenCount clk k ?s = Inr (a, s') \<longrightarrow> bucketsInRange (fst s'))"
  proof
    assume "bucketsInRange rl"
    then have r: "bucketsInRange (fst ?s)" by simp
    have a: "\<forall>a s'. consume clk k ?s = Inr (a, s') \<longrightarrow> bucketsInRange (fst s')"
      using inRange_afterRefill [OF c r, of clk u] inRange_afterConsume [OF c r, of clk u]
      by (auto simp add: k consume_eq [OF u] split: if_splits)
    have b: "\<forall>a s'. isAllowed clk k ?s = Inr (a, s') \<longrightarrow> bucketsInRange (fst s')"
      using inRange_afterRefill [OF c r, of clk u]
      by (auto simp add: k isAllowed_eq [OF u])
    have d: "\<forall>a s'. getTimeUntilNextToken clk k ?s = Inr (a, s') \<longrightarrow> bucketsInRange (fst s')"
      using inRange_afterRefill [OF c r, of clk u]
      by (auto simp add: k getTimeUntilNextToken_eq [OF u])
    have e: "\<forall>a s'. getTokenCount clk k ?s = Inr (a, s') \<longrightarrow> bucketsInRange (fst s')"
      using inRange_afterRefill [OF c r, of clk u]
      by (auto simp add: k getTokenCount_eq [OF u])
    from a b d e show "(\<forall>a s'. consume clk k ?s = Inr (a, s') \<longrightarrow> bucketsInRange (fst s')) \<and>
            (\<forall>a s'. isAllowed clk k ?s = Inr (a, s') \<longrightarrow> bucketsInRange (fst s')) \<and>
            (\<forall>a s'. getTimeUntilNextToken clk k ?s = Inr (a, s') \<longrightarrow> bucketsInRange (fst s')) \<and>
            (\<forall>a s'. getTokenCount clk k ?s = Inr (a, s') \<longrightarrow> bucketsInRange (fst s'))"
      by blast
  qed
  from 1 2 3 4 show ?thesis by blast
qed

text \<open>
  An instance: a fresh limiter with \<open>burst = 3\<close> and \<open>windowSec = 300\<close>.
\<close>

theorem limiter_agreement_witness:
  "createRateLimiter 3 300 = Inr (sampleLimiter 3 300) \<and>
   ((\<exists>s'. consume (\<lambda>i. 0) (JStr ''https://a.example'') (sampleLimiter 3 300, 0) = Inr (True, s')) \<longleftrightarrow>
      (\<exists>s'. isAllowed (\<lambda>i. 0) (JStr ''https://a.example'') (sampleLimiter 3 300, 0) = Inr (True, s'))) \<and>
   ((\<exists>s'. getTimeUntilNextToken (\<lambda>i. 0) (JStr ''https://a.example'') (sampleLimiter 3 300, 0) = Inr (0, s')) \<longleftrightarrow>
      (\<exists>s'. isAllowed (\<lambda>i. 0) (JStr ''https://a.example'') (sampleLimiter 3 300, 0) = Inr (True, s'))) \<and>
   (\<exists>a s'. consume (\<lambda>i. 0) (JStr ''https://a.example'') (sampleLimiter 3 300, 0) = Inr (a, s') \<and>
      bucketsInRange (fst s'))"
proof -
  have c: "configured (sampleLimiter 3 300)" by (simp add: configured_def sampleLimiter_def)
  have r: "bucketsInRange (sampleLimiter 3 300)" by (simp add: bucketsInRange_def sampleLimiter_def)
  have e: "\<exists>a s'. consume (\<lambda>i. 0) (JStr ''https://a.example'') (sampleLimiter 3 300, 0) = Inr (a, s')"
    by (auto simp add: consume_eq)
  have m: "createRateLimiter 3 300 = Inr (sampleLimiter 3 300)"
    by (simp add: createRateLimiter_def sampleLimiter_def)
  from limiter_agreement [OF c, of "\<lambda>i. 0" "JStr ''https://a.example''" 0] r e m show ?thesis
    by blast
qed

end
